theory Spec2Isabelle
  imports Complex_Main "HOL-Library.Multiset"
begin

section \<open>Exceptions\<close>

text \<open>
  Python exceptions are values. \<open>Raised msg\<close> stands for any other exception a library
  call may raise, carrying the text that \<open>str(e)\<close> gives.
\<close>

datatype exn = KeyError string | TypeError | ZeroDivisionError | NameError string | Raised string

section \<open>Benjamini-Hochberg correction: \<open>multipletests(pvalues, method="fdr_bh")[1]\<close>\<close>

text \<open>
  Line 97 of \<open>interactive.py\<close> calls \<open>statsmodels.stats.multitest.multipletests\<close>. The
  definitions below follow that function and the \<open>fdrcorrection\<close> and \<open>_ecdf\<close> helpers it
  delegates to for \<open>fdr_bh\<close>, statement by statement: \<open>np.argsort\<close>, \<open>np.take\<close>, the division
  by the empirical cdf \<open>i / nobs\<close>, \<open>np.minimum.accumulate\<close> on the reversed array, the
  assignment \<open>x[x > 1] = 1\<close> and the scatter \<open>out[sortind] = corrected\<close>. Floating-point
  numbers are idealised as reals: rounding is not modelled. \<open>multipletests\<close> evaluates
  \<open>1. / ntests\<close> before it dispatches on the method, which raises \<open>ZeroDivisionError\<close> for an
  empty vector.
\<close>

definition argsort :: "real list \<Rightarrow> nat list" where
  "argsort ps = map snd (sort_key fst (zip ps [0..<length ps]))"

definition take_np :: "real list \<Rightarrow> nat list \<Rightarrow> real list" where
  "take_np ps ind = map (\<lambda>i. ps ! i) ind"

definition ecdf :: "nat \<Rightarrow> real list" where
  "ecdf nobs = map (\<lambda>i. real i / real nobs) [1..<nobs + 1]"

fun min_acc :: "real \<Rightarrow> real list \<Rightarrow> real list" where
  "min_acc a [] = []"
| "min_acc a (x # xs) = min a x # min_acc (min a x) xs"

fun minimum_accumulate :: "real list \<Rightarrow> real list" where
  "minimum_accumulate [] = []"
| "minimum_accumulate (x # xs) = x # min_acc x xs"

definition clip_above :: "real list \<Rightarrow> real list" where
  "clip_above xs = map (\<lambda>x. if x > 1 then 1 else x) xs"

definition fdrcorrection :: "real list \<Rightarrow> real list" where
  "fdrcorrection pvals_sorted =
     (let ecdffactor = ecdf (length pvals_sorted);
          pvals_corrected_raw = map2 (\<lambda>p e. p / e) pvals_sorted ecdffactor;
          pvals_corrected = rev (minimum_accumulate (rev pvals_corrected_raw))
      in clip_above pvals_corrected)"


definition scatter :: "nat list \<Rightarrow> real list \<Rightarrow> real list" where
  "scatter ind vals = fold (\<lambda>(i, v) out. out[i := v]) (zip ind vals) (replicate (length vals) 0)"

text \<open>
  \<open>np.argsort\<close> with its default sort does not say in which order it leaves equal
  values; \<open>argsort\<close> above keeps them in their original order. The body of \<open>multipletests\<close>
  is therefore given for any index vector, and \<open>sorts\<close> says which index vectors
  \<open>np.argsort\<close> may return: the permutations of the indices that put the values in
  ascending order.
\<close>

definition multipletests_with :: "nat list \<Rightarrow> real list \<Rightarrow> exn + real list" where
  "multipletests_with sortind pvals0 =
     (let pvals = take_np pvals0 sortind;
          ntests = length pvals
      in if ntests = 0 then Inl ZeroDivisionError
         else Inr (scatter sortind (clip_above (fdrcorrection pvals))))"

definition multipletests :: "real list \<Rightarrow> exn + real list" where
  "multipletests pvals0 = multipletests_with (argsort pvals0) pvals0"


subsection \<open>The procedure as the specification words it\<close>

text \<open>
  The reference procedure, following the specification's sentence: sort the p-values
  ascending (each kept with the gene it came from), give rank \<open>i\<close> out of \<open>m\<close>, compute
  \<open>p[i] * m / i\<close>, take the running minimum from the largest rank down to the smallest,
  clip to \<open>[0,1]\<close>, and look every gene's value up again in the original order.
\<close>

definition run_min_down :: "real list \<Rightarrow> real list" where
  "run_min_down xs = foldr (\<lambda>x acc. (case acc of [] \<Rightarrow> [x] | a # _ \<Rightarrow> min x a # acc)) xs []"


definition bh_raw :: "real list \<Rightarrow> real list" where
  "bh_raw ps =
     (let m = length ps;
          ranked = sort_key fst (zip ps [0..<m])
      in map2 (\<lambda>(p, g) i. p * real m / real i) ranked [1..<m + 1])"


text \<open>The entries of \<open>out\<close> read in descending order of the corresponding p-values.\<close>

definition read_descending :: "real list \<Rightarrow> real list \<Rightarrow> real list" where
  "read_descending ps out = map (\<lambda>i. out ! i) (rev (argsort ps))"

section \<open>Floating-point values\<close>

text \<open>
  A cell of a numeric column is an IEEE double. Finite doubles are idealised as reals
  (no rounding, no overflow); \<open>NaN\<close> (the missing value of pandas) and the two infinities
  are kept, with the arithmetic and the comparisons IEEE gives them: every comparison
  with \<open>NaN\<close> is false.
\<close>

datatype fl = NaN | Fin real | PInf | MInf

fun fl_add :: "fl \<Rightarrow> fl \<Rightarrow> fl" where
  "fl_add NaN y = NaN"
| "fl_add x NaN = NaN"
| "fl_add (Fin a) (Fin b) = Fin (a + b)"
| "fl_add (Fin a) y = y"
| "fl_add x (Fin b) = x"
| "fl_add PInf PInf = PInf"
| "fl_add MInf MInf = MInf"
| "fl_add PInf MInf = NaN"
| "fl_add MInf PInf = NaN"

fun fl_neg :: "fl \<Rightarrow> fl" where
  "fl_neg NaN = NaN"
| "fl_neg (Fin a) = Fin (- a)"
| "fl_neg PInf = MInf"
| "fl_neg MInf = PInf"

definition fl_sub :: "fl \<Rightarrow> fl \<Rightarrow> fl" where
  "fl_sub x y = fl_add x (fl_neg y)"

text \<open>Division by a positive finite number (a count of values, or the literal \<open>2\<close>).\<close>

fun fl_div_pos :: "fl \<Rightarrow> real \<Rightarrow> fl" where
  "fl_div_pos (Fin a) d = Fin (a / d)"
| "fl_div_pos x d = x"

fun fl_abs :: "fl \<Rightarrow> fl" where
  "fl_abs NaN = NaN"
| "fl_abs (Fin a) = Fin \<bar>a\<bar>"
| "fl_abs PInf = PInf"
| "fl_abs MInf = PInf"

fun fl_le :: "fl \<Rightarrow> fl \<Rightarrow> bool" where
  "fl_le NaN y = False"
| "fl_le x NaN = False"
| "fl_le (Fin a) (Fin b) = (a \<le> b)"
| "fl_le MInf y = True"
| "fl_le x PInf = True"
| "fl_le x y = False"

definition fl_ge :: "fl \<Rightarrow> fl \<Rightarrow> bool" where
  "fl_ge x y = fl_le y x"

text \<open>\<open>np.log2\<close>: minus infinity at zero, \<open>NaN\<close> below zero.\<close>

fun np_log2 :: "fl \<Rightarrow> fl" where
  "np_log2 NaN = NaN"
| "np_log2 (Fin a) = (if a > 0 then Fin (log 2 a) else if a = 0 then MInf else NaN)"
| "np_log2 PInf = PInf"
| "np_log2 MInf = NaN"

section \<open>The uploaded table\<close>

text \<open>
  A cell of the uploaded table is seen through \<open>pd.to_numeric(errors='coerce')\<close>:
  \<open>Number v\<close> is a cell that is a number, or a text that parses as the number \<open>v\<close>;
  \<open>Text s\<close> is any other content, which the coercion turns into \<open>NaN\<close>. A table has its
  column names in order and its rows as lists of cells; \<open>read_csv\<close> pads a short row with
  missing values, so a cell beyond the end of a row reads as \<open>NaN\<close>. Column names are
  looked up by their first occurrence.
\<close>

datatype cell = Number fl | Text string

record frame =
  columns :: "string list"
  rows :: "cell list list"

definition cell_at :: "cell list \<Rightarrow> nat \<Rightarrow> cell" where
  "cell_at row j = (if j < length row then row ! j else Number NaN)"

fun col_pos :: "string list \<Rightarrow> string \<Rightarrow> nat option" where
  "col_pos [] c = None"
| "col_pos (x # xs) c = (if x = c then Some 0 else map_option Suc (col_pos xs c))"

definition to_numeric :: "cell \<Rightarrow> fl" where
  "to_numeric x = (case x of Number v \<Rightarrow> v | Text s \<Rightarrow> NaN)"

subsection \<open>Ingestion (lines 39 to 47)\<close>







subsection \<open>Condition assignment (lines 69 to 73 and 86 to 87)\<close>

text \<open>
  The dictionary \<open>condition_mapping\<close> keeps insertion order: assigning an existing key
  replaces its value in place, a new key goes to the end. \<open>condition_text\<close> is what the
  user typed into the text input of each sample.
\<close>

fun dict_set :: "(string \<times> string) list \<Rightarrow> string \<Rightarrow> string \<Rightarrow> (string \<times> string) list" where
  "dict_set [] k v = [(k, v)]"
| "dict_set ((k', v') # m) k v = (if k' = k then (k, v) # m else (k', v') # dict_set m k v)"

fun build_condition_mapping ::
  "(string \<Rightarrow> string) \<Rightarrow> string list \<Rightarrow> (string \<times> string) list \<Rightarrow> (string \<times> string) list" where
  "build_condition_mapping condition_text [] m = m"
| "build_condition_mapping condition_text (sample # rest) m =
     (let condition = condition_text sample
      in build_condition_mapping condition_text rest
           (if condition \<noteq> [] then dict_set m sample condition else m))"

text \<open>
  \<open>str.lower\<close> on the bytes of the label: only the ASCII capitals change. (No character
  outside ASCII lower-cases to a letter of \<open>treated\<close> or \<open>untreated\<close>, so the comparison
  with these two words is the one Python makes.)
\<close>

definition lower_char :: "char \<Rightarrow> char" where
  "lower_char c =
     (let n = (of_char c :: nat) in if 65 \<le> n \<and> n \<le> 90 then char_of (n + 32) else c)"

definition lower :: "string \<Rightarrow> string" where
  "lower s = map lower_char s"

definition samples_labelled :: "string \<Rightarrow> (string \<times> string) list \<Rightarrow> string list" where
  "samples_labelled label condition_mapping =
     map fst (filter (\<lambda>(k, v). lower v = label) condition_mapping)"

section \<open>The differential-expression pipeline (lines 81 to 113)\<close>

text \<open>
  \<open>df[sample_cols] = df[sample_cols].apply(pd.to_numeric, errors='coerce')\<close>: selecting a
  column the table does not have raises \<open>KeyError\<close>; otherwise every cell of a selected
  column becomes a number, \<open>NaN\<close> where it is not one.
\<close>

definition missing_columns :: "frame \<Rightarrow> string list \<Rightarrow> string list" where
  "missing_columns df cols = filter (\<lambda>c. c \<notin> set (columns df)) cols"

definition coerce_row :: "string list \<Rightarrow> string list \<Rightarrow> cell list \<Rightarrow> cell list" where
  "coerce_row names sample_cols row =
     map (\<lambda>j. if names ! j \<in> set sample_cols then Number (to_numeric (cell_at row j))
               else cell_at row j) [0..<length names]"

definition to_numeric_cols :: "frame \<Rightarrow> string list \<Rightarrow> exn + frame" where
  "to_numeric_cols df sample_cols =
     (case missing_columns df sample_cols of
        c # _ \<Rightarrow> Inl (KeyError c)
      | [] \<Rightarrow> Inr (df\<lparr>rows := map (coerce_row (columns df) sample_cols) (rows df)\<rparr>))"

text \<open>
  \<open>df[cols].mean(axis=1)\<close>, with the default \<open>skipna=True\<close>: per row, the sum of the values
  that are not \<open>NaN\<close> over their count, and \<open>NaN\<close> when there is none. A text cell in a
  selected column raises \<open>TypeError\<close>.
\<close>

definition nanmean :: "fl list \<Rightarrow> fl" where
  "nanmean vals =
     (let avail = filter (\<lambda>v. v \<noteq> NaN) vals
      in if avail = [] then NaN
         else fl_div_pos (foldr fl_add avail (Fin 0)) (real (length avail)))"

definition select_cells :: "frame \<Rightarrow> string list \<Rightarrow> cell list \<Rightarrow> cell list" where
  "select_cells df cols row = map (\<lambda>c. cell_at row (the (col_pos (columns df) c))) cols"

definition is_text :: "cell \<Rightarrow> bool" where
  "is_text x = (case x of Text s \<Rightarrow> True | Number v \<Rightarrow> False)"

definition mean_axis1 :: "frame \<Rightarrow> string list \<Rightarrow> exn + fl list" where
  "mean_axis1 df cols =
     (case missing_columns df cols of
        c # _ \<Rightarrow> Inl (KeyError c)
      | [] \<Rightarrow>
        if \<exists>row \<in> set (rows df). \<exists>x \<in> set (select_cells df cols row). is_text x
        then Inl TypeError
        else Inr (map (\<lambda>row. nanmean (map to_numeric (select_cells df cols row))) (rows df)))"

definition get_column :: "frame \<Rightarrow> string \<Rightarrow> exn + cell list" where
  "get_column df c =
     (case col_pos (columns df) c of
        None \<Rightarrow> Inl (KeyError c)
      | Some j \<Rightarrow> Inr (map (\<lambda>row. cell_at row j) (rows df)))"

text \<open>
  \<open>np.random.uniform(0, 0.05, size=n)\<close>: the random source is a parameter, the sequence of
  numbers it draws. Its range, \<open>[0, 0.05)\<close>, is a hypothesis where a property needs it.
\<close>

type_synonym rng = "nat \<Rightarrow> real"

definition uniform :: "rng \<Rightarrow> nat \<Rightarrow> real list" where
  "uniform draw n = map draw [0..<n]"

definition in_range :: "rng \<Rightarrow> bool" where
  "in_range draw = (\<forall>i. 0 \<le> draw i \<and> draw i < 5 / 100)"

record results_table =
  Gene :: "cell list"
  BaseMean :: "fl list"
  Log2FoldChange :: "fl list"
  pvalue :: "fl list"
  FDR :: "fl list"

datatype outcome = Computed results_table | Groups_missing

definition log2_fold_change :: "fl \<Rightarrow> fl \<Rightarrow> fl" where
  "log2_fold_change treated untreated =
     fl_sub (np_log2 (fl_add treated (Fin 1))) (np_log2 (fl_add untreated (Fin 1)))"

definition base_mean :: "fl \<Rightarrow> fl \<Rightarrow> fl" where
  "base_mean treated untreated = fl_div_pos (fl_add treated untreated) 2"

text \<open>The body of the \<open>try\<close> block, lines 82 to 111.\<close>

definition de_try ::
  "rng \<Rightarrow> frame \<Rightarrow> string \<Rightarrow> string list \<Rightarrow> (string \<times> string) list \<Rightarrow> exn + outcome" where
  "de_try draw df0 gene_id_col sample_cols condition_mapping =
     (case to_numeric_cols df0 sample_cols of
        Inl e \<Rightarrow> Inl e
      | Inr df \<Rightarrow>
        let treated_samples = samples_labelled ''treated'' condition_mapping;
            untreated_samples = samples_labelled ''untreated'' condition_mapping
        in if treated_samples \<noteq> [] \<and> untreated_samples \<noteq> [] then
             (case mean_axis1 df untreated_samples of
                Inl e \<Rightarrow> Inl e
              | Inr untreated_expr \<Rightarrow>
             (case mean_axis1 df treated_samples of
                Inl e \<Rightarrow> Inl e
              | Inr treated_expr \<Rightarrow>
                let log2fc = map2 log2_fold_change treated_expr untreated_expr;
                    pvalues = uniform draw (length log2fc)
                in (case multipletests pvalues of
                      Inl e \<Rightarrow> Inl e
                    | Inr fdr \<Rightarrow>
                   (case get_column df gene_id_col of
                      Inl e \<Rightarrow> Inl e
                    | Inr gene \<Rightarrow>
                      Inr (Computed \<lparr>Gene = gene,
                             BaseMean = map2 base_mean treated_expr untreated_expr,
                             Log2FoldChange = log2fc,
                             pvalue = map Fin pvalues,
                             FDR = map Fin fdr\<rparr>)))))
           else Inr Groups_missing)"

section \<open>The page script\<close>

text \<open>
  The session state has one slot, \<open>results\<close>: absent (\<open>None\<close>), holding Python's \<open>None\<close>
  (\<open>Some None\<close>) or holding a results table. Of what a run of the script shows, the
  messages of \<open>st.info\<close>, \<open>st.warning\<close>, \<open>st.error\<close> and \<open>st.success\<close> are recorded, and the
  filtered table.
\<close>

type_synonym session = "results_table option option"

datatype message =
    Info_upload_file
  | Warning_select_samples
  | Error_need_both_groups
  | Error_occurred exn
  | Success_completed nat
  | Info_run_first

record ui =
  fdr_cutoff :: real
  base_mean_cutoff :: int
  log2fc_cutoff :: real
  uploaded_file :: "(string \<times> string) option"
  gene_id_col :: string
  sample_cols :: "string list"
  condition_text :: "string \<Rightarrow> string"
  run_clicked :: bool


text \<open>Lines 80 to 113: the button's handler, the \<open>try\<close> block with its \<open>except\<close>.\<close>

definition run_de :: "rng \<Rightarrow> frame \<Rightarrow> ui \<Rightarrow> session \<Rightarrow> session \<times> message list" where
  "run_de draw df u s =
     (let condition_mapping = build_condition_mapping (condition_text u) (sample_cols u) []
      in case de_try draw df (gene_id_col u) (sample_cols u) condition_mapping of
           Inr (Computed results) \<Rightarrow>
             (Some (Some results), [Success_completed (length (Gene results))])
         | Inr Groups_missing \<Rightarrow> (s, [Error_need_both_groups])
         | Inl e \<Rightarrow> (s, [Error_occurred e]))"


subsection \<open>Filtering (lines 127 to 131)\<close>

text \<open>
  Three boolean columns, joined elementwise by \<open>&\<close>, select the rows of every column of
  the table.
\<close>

definition select_rows :: "bool list \<Rightarrow> 'a list \<Rightarrow> 'a list" where
  "select_rows keep col = map snd (filter fst (zip keep col))"

definition filter_mask :: "real \<Rightarrow> int \<Rightarrow> real \<Rightarrow> results_table \<Rightarrow> bool list" where
  "filter_mask fdr_cut base_mean_cut log2fc_cut results =
     map2 (\<and>)
       (map2 (\<and>)
          (map (\<lambda>x. fl_le x (Fin fdr_cut)) (FDR results))
          (map (\<lambda>x. fl_ge x (Fin (of_int base_mean_cut))) (BaseMean results)))
       (map (\<lambda>x. fl_ge (fl_abs x) (Fin log2fc_cut)) (Log2FoldChange results))"

definition filtered_df :: "real \<Rightarrow> int \<Rightarrow> real \<Rightarrow> results_table \<Rightarrow> results_table" where
  "filtered_df fdr_cut base_mean_cut log2fc_cut results =
     (let keep = filter_mask fdr_cut base_mean_cut log2fc_cut results
      in \<lparr>Gene = select_rows keep (Gene results),
          BaseMean = select_rows keep (BaseMean results),
          Log2FoldChange = select_rows keep (Log2FoldChange results),
          pvalue = select_rows keep (pvalue results),
          FDR = select_rows keep (FDR results)\<rparr>)"

text \<open>
  Lines 120 to 182, up to the filtered table. The heat map reads \<open>sample_cols\<close>, a name
  that exists only when a file is uploaded: with stored results, a non-empty filtered
  table and no file, line 138 raises \<open>NameError\<close>. The plots are not modelled. The second
  tab assigns nothing to the session state.
\<close>

definition tab2 ::
  "ui \<Rightarrow> session \<Rightarrow> exn \<times> session + session \<times> results_table option \<times> message list" where
  "tab2 u s =
     (case s of
        Some (Some results) \<Rightarrow>
          (let view = filtered_df (fdr_cutoff u) (base_mean_cutoff u) (log2fc_cutoff u) results
           in if Gene view \<noteq> [] \<and> uploaded_file u = None
              then Inl (NameError ''sample_cols'', s)
              else Inr (s, Some view, []))
      | _ \<Rightarrow> Inr (s, None, [Info_run_first]))"


subsection \<open>Rows of a results table\<close>

text \<open>
  A results table is well formed when its five columns have one length, as every
  \<open>DataFrame\<close> has; its rows are then the tuples of the entries at each index.
\<close>

definition well_formed :: "results_table \<Rightarrow> bool" where
  "well_formed t =
     (length (BaseMean t) = length (Gene t) \<and> length (Log2FoldChange t) = length (Gene t) \<and>
      length (pvalue t) = length (Gene t) \<and> length (FDR t) = length (Gene t))"

type_synonym result_row = "cell \<times> fl \<times> fl \<times> fl \<times> fl"

definition table_rows :: "results_table \<Rightarrow> result_row list" where
  "table_rows t =
     zip (Gene t) (zip (BaseMean t) (zip (Log2FoldChange t) (zip (pvalue t) (FDR t))))"

text \<open>The condition of the specification on one row.\<close>

fun keeps :: "real \<Rightarrow> int \<Rightarrow> real \<Rightarrow> result_row \<Rightarrow> bool" where
  "keeps fdr_cut base_mean_cut log2fc_cut (g, bm, lfc, p, fdr) =
     (fl_le fdr (Fin fdr_cut) \<and> fl_ge bm (Fin (of_int base_mean_cut)) \<and>
      fl_ge (fl_abs lfc) (Fin log2fc_cut))"

subsection \<open>The mean of the available values, as the specification words it\<close>

text \<open>
  The reference for the group means: the numbers among the values of a row (a missing
  value is left out), and their arithmetic mean, the sum over the count.
\<close>

fun available :: "fl list \<Rightarrow> real list" where
  "available [] = []"
| "available (Fin x # vs) = x # available vs"
| "available (v # vs) = available vs"

definition arithmetic_mean :: "real list \<Rightarrow> real" where
  "arithmetic_mean xs = sum_list xs / real (length xs)"

section \<open>Concrete tables, inputs and readers\<close>

definition example_results :: results_table where
  "example_results =
     \<lparr>Gene = [Text ''G1'', Text ''G2''], BaseMean = [Fin 20, Fin 5],
      Log2FoldChange = [Fin (- 1), Fin 2], pvalue = [Fin (1 / 200), Fin (1 / 100)],
      FDR = [Fin (1 / 100), Fin (1 / 100)]\<rparr>"

definition example_ui :: ui where
  "example_ui =
     \<lparr>fdr_cutoff = 1 / 100, base_mean_cutoff = 10, log2fc_cutoff = 1 / 2,
      uploaded_file = Some (''counts.csv'', []), gene_id_col = ''Gene'',
      sample_cols = [''T1'', ''U1''],
      condition_text = (\<lambda>c. if c = ''T1'' then ''Treated'' else ''untreated''),
      run_clicked = False\<rparr>"

definition zero_fdr_results :: results_table where
  "zero_fdr_results =
     \<lparr>Gene = [Text ''G1'', Text ''G2''], BaseMean = [Fin 20, Fin 0],
      Log2FoldChange = [Fin (- 1), MInf], pvalue = [Fin 0, Fin 0],
      FDR = [Fin 0, Fin 0]\<rparr>"

definition missing_treated_frame :: frame where
  "missing_treated_frame =
     \<lparr>columns = [''Gene'', ''T1'', ''U1''],
      rows = [[Text ''G1'', Text ''NA'', Number (Fin 5)]]\<rparr>"

definition missing_treated_results :: results_table where
  "missing_treated_results =
     \<lparr>Gene = [Text ''G1''], BaseMean = [NaN], Log2FoldChange = [NaN], pvalue = [Fin 0],
      FDR = [Fin 0]\<rparr>"



definition header_only_frame :: frame where
  "header_only_frame = \<lparr>columns = [''Gene'', ''T1'', ''U1''], rows = []\<rparr>"



definition two_gene_frame :: frame where
  "two_gene_frame =
     \<lparr>columns = [''Gene'', ''T1'', ''T2'', ''U1'', ''U2''],
      rows = [[Text ''G1'', Number (Fin 10), Number (Fin 10), Number (Fin 4), Number (Fin 6)],
              [Text ''G2'', Number (Fin 20), Text ''n/a'', Number (Fin 8), Number (Fin 8)]]\<rparr>"

definition two_gene_mapping :: "(string \<times> string) list" where
  "two_gene_mapping =
     [(''T1'', ''treated''), (''T2'', ''treated''), (''U1'', ''untreated''), (''U2'', ''untreated'')]"

definition two_gene_results :: results_table where
  "two_gene_results =
     \<lparr>Gene = [Text ''G1'', Text ''G2''],
      BaseMean = [Fin (15 / 2), Fin 14],
      Log2FoldChange = [Fin (log 2 11 - log 2 6), Fin (log 2 21 - log 2 9)],
      pvalue = [Fin (1 / 100), Fin (1 / 100)],
      FDR = [Fin (1 / 100), Fin (1 / 100)]\<rparr>"

section \<open>Properties of the correction\<close>

lemma length_min_acc: "length (min_acc a xs) = length xs"
  by (induction xs arbitrary: a) auto

lemma length_minimum_accumulate: "length (minimum_accumulate xs) = length xs"
  by (cases xs) (auto simp: length_min_acc)

lemma min_acc_snoc:
  "min_acc a (ys @ [x]) = min_acc a ys @ [min (last (a # min_acc a ys)) x]"
  by (induction ys arbitrary: a) auto

lemma minimum_accumulate_snoc:
  "ys \<noteq> [] \<Longrightarrow>
   minimum_accumulate (ys @ [x]) = minimum_accumulate ys @ [min (last (minimum_accumulate ys)) x]"
  by (cases ys) (auto simp: min_acc_snoc)

lemma run_min_down_Cons:
  "run_min_down (x # xs) =
     (case run_min_down xs of [] \<Rightarrow> [x] | a # _ \<Rightarrow> min x a # run_min_down xs)"
  by (simp add: run_min_down_def split: list.splits)

lemma run_min_down_Nil: "run_min_down [] = []"
  by (simp add: run_min_down_def)

lemma length_run_min_down: "length (run_min_down xs) = length xs"
  by (induction xs) (auto simp: run_min_down_Cons run_min_down_Nil split: list.splits)

lemma run_min_down_eq_Nil: "run_min_down xs = [] \<longleftrightarrow> xs = []"
  using length_run_min_down [of xs] by (metis length_0_conv)

lemma rev_accumulate_rev: "rev (minimum_accumulate (rev xs)) = run_min_down xs"
proof (induction xs)
  case Nil
  show ?case by (simp add: run_min_down_Nil)
next
  case (Cons x xs)
  show ?case
  proof (cases "xs = []")
    case True
    then show ?thesis by (simp add: run_min_down_Cons run_min_down_Nil)
  next
    case False
    then obtain a as where ra: "run_min_down xs = a # as"
      by (cases "run_min_down xs") (auto simp: run_min_down_eq_Nil)
    from False have ne: "rev xs \<noteq> []" by simp
    have acc_ne: "minimum_accumulate (rev xs) \<noteq> []"
      using ne length_minimum_accumulate [of "rev xs"] by (metis length_0_conv)
    have "last (minimum_accumulate (rev xs)) = hd (rev (minimum_accumulate (rev xs)))"
      using acc_ne by (simp add: hd_rev)
    also have "\<dots> = a" using Cons.IH ra by simp
    finally have la: "last (minimum_accumulate (rev xs)) = a" .
    have "rev (minimum_accumulate (rev (x # xs))) =
          min a x # rev (minimum_accumulate (rev xs))"
      using minimum_accumulate_snoc [OF ne, of x] la by simp
    then show ?thesis using Cons.IH ra by (simp add: run_min_down_Cons min.commute)
  qed
qed

lemma sorted_run_min_down: "sorted (run_min_down xs)"
proof (induction xs)
  case Nil
  show ?case by (simp add: run_min_down_Nil)
next
  case (Cons x xs)
  show ?case
  proof (cases "run_min_down xs")
    case Nil
    then show ?thesis by (simp add: run_min_down_Cons)
  next
    case (Cons a as)
    with Cons.IH have "\<forall>y\<in>set (a # as). a \<le> y" and "sorted (a # as)" by auto
    then have "\<forall>y\<in>set (a # as). min x a \<le> y" by (meson min.coboundedI2)
    with Cons \<open>sorted (a # as)\<close> show ?thesis by (simp add: run_min_down_Cons)
  qed
qed

lemma run_min_down_le_last:
  "xs \<noteq> [] \<Longrightarrow> y \<in> set (run_min_down xs) \<Longrightarrow> y \<le> last xs"
proof (induction xs arbitrary: y)
  case Nil
  then show ?case by simp
next
  case (Cons x xs)
  show ?case
  proof (cases "xs = []")
    case True
    with Cons.prems show ?thesis by (simp add: run_min_down_Cons run_min_down_Nil)
  next
    case False
    then obtain a as where ra: "run_min_down xs = a # as"
      by (cases "run_min_down xs") (auto simp: run_min_down_eq_Nil)
    have a: "a \<le> last xs" using Cons.IH [OF False, of a] ra by simp
    from Cons.prems ra have "y = min x a \<or> y \<in> set (run_min_down xs)"
      by (simp add: run_min_down_Cons)
    then show ?thesis
    proof
      assume "y = min x a"
      with a False show ?thesis by (simp add: min.coboundedI2)
    next
      assume "y \<in> set (run_min_down xs)"
      with Cons.IH [OF False] False show ?thesis by simp
    qed
  qed
qed

lemma run_min_down_lower:
  "\<forall>x\<in>set xs. c \<le> x \<Longrightarrow> \<forall>y\<in>set (run_min_down xs). c \<le> y"
  by (induction xs) (auto simp: run_min_down_Cons run_min_down_Nil split: list.splits)


lemma ranked_pairs:
  "(p, g) \<in> set (sort_key fst (zip ps [0..<length ps])) \<Longrightarrow> g < length ps \<and> p = ps ! g"
  by (auto simp: set_zip)

lemma length_argsort: "length (argsort ps) = length ps"
  by (simp add: argsort_def)

lemma mset_argsort: "mset (argsort ps) = mset [0..<length ps]"
proof -
  have "mset (argsort ps) = mset (map snd (zip ps [0..<length ps]))"
    unfolding argsort_def by (simp only: mset_map mset_sort)
  moreover have "map snd (zip ps [0..<length ps]) = [0..<length ps]" by simp
  ultimately show ?thesis by (simp only:)
qed

lemma set_argsort: "set (argsort ps) = {0..<length ps}"
  using mset_argsort [of ps] by (metis mset_eq_setD set_upt)

lemma distinct_argsort: "distinct (argsort ps)"
  using mset_argsort [of ps] by (metis distinct_upt mset_eq_imp_distinct_iff)

lemma take_argsort:
  "take_np ps (argsort ps) = map fst (sort_key fst (zip ps [0..<length ps]))"
  unfolding take_np_def argsort_def map_map
  by (rule map_cong) (auto simp: set_zip)

lemma set_take_argsort: "set (take_np ps (argsort ps)) = set ps"
proof -
  have "set (take_np ps (argsort ps)) = (\<lambda>i. ps ! i) ` {0..<length ps}"
    by (simp add: take_np_def set_argsort)
  also have "\<dots> = set ps" by (metis atLeast0LessThan nth_image take_all_iff order_refl lessThan_atLeast0 set_conv_nth)
  finally show ?thesis .
qed

lemma fold_update_nth:
  "distinct ind \<Longrightarrow> length ind = length vals \<Longrightarrow> g < length out \<Longrightarrow>
   fold (\<lambda>(i, v) out. out[i := v]) (zip ind vals) out ! g =
     (case map_of (zip ind vals) g of Some v \<Rightarrow> v | None \<Rightarrow> out ! g)"
proof (induction ind arbitrary: vals out)
  case Nil
  then show ?case by simp
next
  case (Cons i ind)
  then obtain v vs where vals: "vals = v # vs" by (cases vals) auto
  have notin: "map_of (zip ind vs) i = None"
    using Cons.prems(1) by (auto simp: map_of_eq_None_iff dest: set_zip_leftD)
  have "fold (\<lambda>(i, v) out. out[i := v]) (zip ind vs) (out[i := v]) ! g =
        (case map_of (zip ind vs) g of Some w \<Rightarrow> w | None \<Rightarrow> out[i := v] ! g)"
    using Cons.prems vals by (intro Cons.IH) auto
  then show ?case using vals notin Cons.prems(3)
    by (auto split: option.splits)
qed

lemma length_fold_update:
  "length (fold (\<lambda>(i, v) out. out[i := v]) xs out) = length out"
  by (induction xs arbitrary: out) auto

lemma length_scatter: "length (scatter ind vals) = length vals"
  by (simp add: scatter_def length_fold_update)

lemma scatter_nth:
  assumes "distinct ind" "length ind = length vals" "g \<in> set ind" "g < length vals"
  shows "scatter ind vals ! g = the (map_of (zip ind vals) g)"
proof -
  from assms(2,3) obtain v where "map_of (zip ind vals) g = Some v"
    by (metis map_of_zip_is_Some not_Some_eq)
  then show ?thesis
    using fold_update_nth [OF assms(1,2), of g "replicate (length vals) 0"] assms(4)
    by (simp add: scatter_def)
qed

lemma scatter_gather:
  assumes "distinct ind" "length ind = length vals" "set ind = {0..<length vals}"
  shows "map (\<lambda>i. scatter ind vals ! i) ind = vals"
proof (rule nth_equalityI)
  show "length (map (\<lambda>i. scatter ind vals ! i) ind) = length vals" using assms(2) by simp
next
  fix k assume "k < length (map (\<lambda>i. scatter ind vals ! i) ind)"
  then have k: "k < length ind" by simp
  then have mem: "ind ! k \<in> set ind" by simp
  with assms(3) have lt: "ind ! k < length vals" by auto
  have "map_of (zip ind vals) (ind ! k) = Some (vals ! k)"
    using assms(1,2) k by (simp add: map_of_zip_nth)
  then show "map (\<lambda>i. scatter ind vals ! i) ind ! k = vals ! k"
    using scatter_nth [OF assms(1,2) mem lt] k by simp
qed

lemma set_scatter:
  assumes "distinct ind" "length ind = length vals" "set ind = {0..<length vals}"
  shows "set (scatter ind vals) = set vals"
proof -
  have "set vals = (\<lambda>i. scatter ind vals ! i) ` set ind"
    using scatter_gather [OF assms] by (metis set_map)
  also have "\<dots> = (\<lambda>i. scatter ind vals ! i) ` {0..<length (scatter ind vals)}"
    using assms(3) by (simp add: length_scatter)
  also have "\<dots> = set (scatter ind vals)"
    by (metis atLeast0LessThan nth_image order_refl take_all_iff)
  finally show ?thesis by simp
qed

lemma raw_agree:
  "map2 (\<lambda>p e. p / e) (map fst ranked) (ecdf (length ranked)) =
   map2 (\<lambda>(p, g) i. p * real (length ranked) / real i) ranked [1..<length ranked + 1]"
proof (rule nth_equalityI)
  show "length (map2 (\<lambda>p e. p / e) (map fst ranked) (ecdf (length ranked))) =
        length (map2 (\<lambda>(p, g) i. p * real (length ranked) / real i) ranked [1..<length ranked + 1])"
    by (simp add: ecdf_def del: upt_Suc)
next
  fix k assume "k < length (map2 (\<lambda>p e. p / e) (map fst ranked) (ecdf (length ranked)))"
  then have k: "k < length ranked" by (simp add: ecdf_def del: upt_Suc)
  then have r: "[1..<length ranked + 1] ! k = 1 + k" by (simp del: upt_Suc)
  show "map2 (\<lambda>p e. p / e) (map fst ranked) (ecdf (length ranked)) ! k =
        map2 (\<lambda>(p, g) i. p * real (length ranked) / real i) ranked [1..<length ranked + 1] ! k"
    using k r by (simp add: ecdf_def split: prod.splits del: upt_Suc)
qed


lemma length_bh_raw: "length (bh_raw ps) = length ps"
  by (simp add: bh_raw_def Let_def del: upt_Suc)

lemma bh_raw_nth:
  assumes "k < length ps"
  shows "bh_raw ps ! k = take_np ps (argsort ps) ! k * real (length ps) / real (Suc k)"
proof -
  have r: "[1..<length ps + 1] ! k = 1 + k" using assms by (simp del: upt_Suc)
  show ?thesis using assms r
    by (simp add: bh_raw_def Let_def take_argsort split: prod.splits del: upt_Suc)
qed

lemma bh_raw_nonneg:
  assumes "\<forall>p\<in>set ps. 0 \<le> p"
  shows "\<forall>x\<in>set (bh_raw ps). 0 \<le> x"
proof
  fix x assume "x \<in> set (bh_raw ps)"
  then obtain k where k: "k < length ps" and x: "x = bh_raw ps ! k"
    by (metis in_set_conv_nth length_bh_raw)
  have "take_np ps (argsort ps) ! k \<in> set (take_np ps (argsort ps))"
    using k by (simp add: take_np_def length_argsort)
  then have "0 \<le> take_np ps (argsort ps) ! k" using assms by (simp add: set_take_argsort)
  then show "0 \<le> x" using x bh_raw_nth [OF k] by simp
qed

lemma last_bh_raw:
  assumes "ps \<noteq> []"
  shows "last (bh_raw ps) \<in> set ps"
proof -
  let ?m = "length ps"
  have m: "?m - 1 < ?m" using assms by simp
  have ne: "bh_raw ps \<noteq> []" using assms length_bh_raw [of ps] by (metis length_0_conv)
  have "last (bh_raw ps) = bh_raw ps ! (?m - 1)"
    using ne by (simp add: last_conv_nth length_bh_raw)
  also have "\<dots> = take_np ps (argsort ps) ! (?m - 1)"
    using bh_raw_nth [OF m] assms by simp
  also have "\<dots> \<in> set (take_np ps (argsort ps))"
    using m by (simp add: take_np_def length_argsort)
  finally show ?thesis by (simp add: set_take_argsort)
qed

lemma fdrcorrection_sorted:
  "fdrcorrection (take_np ps (argsort ps)) = clip_above (run_min_down (bh_raw ps))"
proof -
  let ?ranked = "sort_key fst (zip ps [0..<length ps])"
  have len: "length ?ranked = length ps" by simp
  have "map2 (\<lambda>p e. p / e) (map fst ?ranked) (ecdf (length ps)) = bh_raw ps"
    using raw_agree [of ?ranked] unfolding len by (simp add: bh_raw_def Let_def del: upt_Suc)
  then show ?thesis
    by (simp add: fdrcorrection_def Let_def take_argsort rev_accumulate_rev del: upt_Suc)
qed

lemma clip_above_idem: "clip_above (clip_above xs) = clip_above xs"
  by (simp add: clip_above_def)


lemma multipletests_sorted:
  assumes "ps \<noteq> []"
  shows "multipletests ps = Inr (scatter (argsort ps) (clip_above (run_min_down (bh_raw ps))))"
proof -
  have ne: "length (take_np ps (argsort ps)) \<noteq> 0"
    using assms by (simp add: take_np_def length_argsort)
  show ?thesis
    unfolding multipletests_def multipletests_with_def Let_def using ne
    by (simp only: fdrcorrection_sorted clip_above_idem if_False)
qed

lemma length_corrected: "length (clip_above (run_min_down (bh_raw ps))) = length ps"
  by (simp add: clip_above_def length_run_min_down length_bh_raw)


















lemma sorted_clip_above: "sorted xs \<Longrightarrow> sorted (clip_above xs)"
  unfolding clip_above_def sorted_map
  by (erule sorted_wrt_mono_rel [rotated]) auto

lemma clip_above_range:
  "\<forall>x\<in>set xs. 0 \<le> x \<Longrightarrow> \<forall>y\<in>set (clip_above xs). 0 \<le> y \<and> y \<le> 1"
  by (auto simp: clip_above_def)

lemma clip_above_upper:
  "\<forall>x\<in>set xs. x < b \<Longrightarrow> \<forall>y\<in>set (clip_above xs). y < b"
  by (auto simp: clip_above_def)

lemma corrected_below:
  assumes "ps \<noteq> []" and "\<forall>p\<in>set ps. p < b"
  shows "\<forall>y\<in>set (clip_above (run_min_down (bh_raw ps))). y < b"
proof (rule clip_above_upper, rule ballI)
  fix x assume x: "x \<in> set (run_min_down (bh_raw ps))"
  have ne: "bh_raw ps \<noteq> []" using assms(1) length_bh_raw [of ps] by (metis length_0_conv)
  have "x \<le> last (bh_raw ps)" using run_min_down_le_last [OF ne x] .
  moreover have "last (bh_raw ps) < b" using last_bh_raw [OF assms(1)] assms(2) by simp
  ultimately show "x < b" by simp
qed

lemma set_multipletests:
  assumes "ps \<noteq> []"
  shows "\<exists>out. multipletests ps = Inr out \<and> length out = length ps \<and>
           set out = set (clip_above (run_min_down (bh_raw ps))) \<and>
           map (\<lambda>i. out ! i) (argsort ps) = clip_above (run_min_down (bh_raw ps))"
proof -
  let ?c = "clip_above (run_min_down (bh_raw ps))"
  have d: "distinct (argsort ps)" by (rule distinct_argsort)
  have l: "length (argsort ps) = length ?c" by (simp add: length_argsort length_corrected)
  have s: "set (argsort ps) = {0..<length ?c}" by (simp add: set_argsort length_corrected)
  show ?thesis
    using multipletests_sorted [OF assms] set_scatter [OF d l s] scatter_gather [OF d l s]
    by (simp add: length_scatter length_corrected)
qed

text \<open>
  Claim C8, as amended. For every non-empty vector of non-negative p-values the
  correction returns a vector of the same length whose entries, read in descending order
  of the corresponding p-values, never increase (read back to front, that is in ascending
  p-value order, they are sorted), and every entry lies in \<open>[0,1]\<close>.
\<close>

theorem fdr_monotone_in_p_order_and_in_unit_interval:
  assumes "ps \<noteq> []" and "\<forall>p\<in>set ps. 0 \<le> p"
  shows "\<exists>out. multipletests ps = Inr out \<and> length out = length ps \<and>
           sorted (rev (read_descending ps out)) \<and> (\<forall>x\<in>set out. 0 \<le> x \<and> x \<le> 1)"
proof -
  let ?c = "clip_above (run_min_down (bh_raw ps))"
  from set_multipletests [OF assms(1)] obtain out where
    out: "multipletests ps = Inr out" "length out = length ps" "set out = set ?c"
      "map (\<lambda>i. out ! i) (argsort ps) = ?c" by blast
  have "rev (read_descending ps out) = ?c"
    using out(4) by (simp add: read_descending_def rev_map)
  then have srt: "sorted (rev (read_descending ps out))"
    using sorted_clip_above [OF sorted_run_min_down] by simp
  have "\<forall>x\<in>set (run_min_down (bh_raw ps)). 0 \<le> x"
    using run_min_down_lower [OF bh_raw_nonneg [OF assms(2)]] .
  then have "\<forall>x\<in>set out. 0 \<le> x \<and> x \<le> 1"
    using clip_above_range out(3) by simp
  with out srt show ?thesis by blast
qed

theorem fdr_monotone_in_p_order_and_in_unit_interval_witness:
  "multipletests [1/100, 4/100] = Inr [2/100, 4/100] \<and>
   sorted (rev (read_descending [1/100, 4/100] [2/100, 4/100]))"
proof -
  have a: "[1/100, 4/100] \<noteq> ([] :: real list)" by simp
  have b: "\<forall>p\<in>set [1/100, 4/100 :: real]. 0 \<le> p" by simp
  have c: "multipletests [1/100, 4/100] = Inr [2/100, 4/100]" by code_simp
  from fdr_monotone_in_p_order_and_in_unit_interval [OF a b] c
  have "sorted (rev (read_descending [1/100, 4/100] [2/100, 4/100]))" by simp
  with c show ?thesis by simp
qed

text \<open>
  Claim C8, as stated, fails: for the p-values \<open>0.01, 0.04\<close> the FDR values are
  \<open>0.02, 0.04\<close>; read in descending p-value order they are \<open>0.04, 0.02\<close>, which is not a
  non-decreasing sequence.
\<close>

theorem fdr_descending_read_counterexample:
  "multipletests [1/100, 4/100] = Inr [2/100, 4/100] \<and>
   read_descending [1/100, 4/100] [2/100, 4/100] = [4/100, 2/100] \<and>
   \<not> sorted (read_descending [1/100, 4/100] [2/100, 4/100])"
proof -
  have c: "multipletests [1/100, 4/100] = Inr [2/100, 4/100]" by code_simp
  have r: "read_descending [1/100, 4/100] [2/100, 4/100] = [4/100, 2/100 :: real]" by code_simp
  have n: "\<not> sorted (read_descending [1/100, 4/100] [2/100, 4/100 :: real])"
    unfolding r by (simp del: sorted_wrt.simps add: sorted2)
  show ?thesis by (intro conjI c r n)
qed

section \<open>Properties of the script\<close>

lemma select_rows_Nil [simp]: "select_rows [] xs = []" "select_rows ks [] = []"
  by (simp_all add: select_rows_def)

lemma select_rows_Cons [simp]:
  "select_rows (k # ks) (x # xs) = (if k then x # select_rows ks xs else select_rows ks xs)"
  by (simp add: select_rows_def)

lemma select_rows_zip:
  "length xs = length ys \<Longrightarrow>
   zip (select_rows ks xs) (select_rows ks ys) = select_rows ks (zip xs ys)"
proof (induction ks arbitrary: xs ys)
  case Nil
  show ?case by simp
next
  case (Cons k ks)
  show ?case
  proof (cases xs)
    case Nil
    then show ?thesis by simp
  next
    case (Cons x xs')
    with Cons.prems obtain y ys' where ys: "ys = y # ys'" by (cases ys) auto
    with Cons Cons.prems Cons.IH [of xs' ys'] show ?thesis by simp
  qed
qed

lemma length_select_rows:
  "length xs = length ys \<Longrightarrow> length (select_rows ks xs) = length (select_rows ks ys)"
proof (induction ks arbitrary: xs ys)
  case Nil
  show ?case by simp
next
  case (Cons k ks)
  show ?case
  proof (cases xs)
    case Nil
    with Cons.prems show ?thesis by simp
  next
    case (Cons x xs')
    with Cons.prems obtain y ys' where ys: "ys = y # ys'" by (cases ys) auto
    with Cons Cons.prems Cons.IH [of xs' ys'] show ?thesis by simp
  qed
qed

lemma select_rows_map: "select_rows (map P xs) xs = filter P xs"
  by (induction xs) auto

lemma select_rows_all:
  "length ks = length xs \<Longrightarrow> \<forall>k\<in>set ks. k \<Longrightarrow> select_rows ks xs = xs"
proof (induction ks arbitrary: xs)
  case Nil
  then show ?case by simp
next
  case (Cons k ks)
  then obtain x xs' where xs: "xs = x # xs'" by (cases xs) auto
  have "select_rows ks xs' = xs'" using Cons.prems xs by (intro Cons.IH) auto
  then show ?case using Cons.prems xs by simp
qed

lemma length_table_rows: "well_formed t \<Longrightarrow> length (table_rows t) = length (Gene t)"
  by (simp add: well_formed_def table_rows_def)

lemma length_filter_mask: "well_formed t \<Longrightarrow> length (filter_mask a b c t) = length (Gene t)"
  by (simp add: well_formed_def filter_mask_def)

lemma filter_mask_rows:
  assumes "well_formed t"
  shows "filter_mask a b c t = map (keeps a b c) (table_rows t)"
proof (rule nth_equalityI)
  show "length (filter_mask a b c t) = length (map (keeps a b c) (table_rows t))"
    using assms by (simp add: length_filter_mask length_table_rows)
next
  fix i assume "i < length (filter_mask a b c t)"
  then have i: "i < length (Gene t)" using assms by (simp add: length_filter_mask)
  then show "filter_mask a b c t ! i = map (keeps a b c) (table_rows t) ! i"
    using assms by (simp add: well_formed_def filter_mask_def table_rows_def)
qed

lemma table_rows_filtered:
  assumes "well_formed t"
  shows "table_rows (filtered_df a b c t) = select_rows (filter_mask a b c t) (table_rows t)"
proof -
  let ?k = "filter_mask a b c t"
  have l: "length (BaseMean t) = length (Gene t)" "length (Log2FoldChange t) = length (Gene t)"
    "length (pvalue t) = length (Gene t)" "length (FDR t) = length (Gene t)"
    using assms by (simp_all add: well_formed_def)
  have 1: "zip (select_rows ?k (pvalue t)) (select_rows ?k (FDR t)) =
           select_rows ?k (zip (pvalue t) (FDR t))"
    by (rule select_rows_zip) (simp add: l)
  have 2: "zip (select_rows ?k (Log2FoldChange t)) (select_rows ?k (zip (pvalue t) (FDR t))) =
           select_rows ?k (zip (Log2FoldChange t) (zip (pvalue t) (FDR t)))"
    by (rule select_rows_zip) (simp add: l)
  have 3: "zip (select_rows ?k (BaseMean t))
             (select_rows ?k (zip (Log2FoldChange t) (zip (pvalue t) (FDR t)))) =
           select_rows ?k (zip (BaseMean t) (zip (Log2FoldChange t) (zip (pvalue t) (FDR t))))"
    by (rule select_rows_zip) (simp add: l)
  have 4: "zip (select_rows ?k (Gene t))
             (select_rows ?k (zip (BaseMean t) (zip (Log2FoldChange t) (zip (pvalue t) (FDR t))))) =
           select_rows ?k (zip (Gene t) (zip (BaseMean t) (zip (Log2FoldChange t) (zip (pvalue t) (FDR t)))))"
    by (rule select_rows_zip) (simp add: l)
  have "table_rows (filtered_df a b c t) =
        zip (select_rows ?k (Gene t)) (zip (select_rows ?k (BaseMean t))
          (zip (select_rows ?k (Log2FoldChange t))
             (zip (select_rows ?k (pvalue t)) (select_rows ?k (FDR t)))))"
    unfolding filtered_df_def Let_def table_rows_def by simp
  also have "\<dots> = select_rows ?k (table_rows t)"
    unfolding 1 2 3 4 table_rows_def ..
  finally show ?thesis .
qed

lemma well_formed_filtered:
  assumes "well_formed t"
  shows "well_formed (filtered_df a b c t)"
proof -
  let ?k = "filter_mask a b c t"
  have l: "length (BaseMean t) = length (Gene t)" "length (Log2FoldChange t) = length (Gene t)"
    "length (pvalue t) = length (Gene t)" "length (FDR t) = length (Gene t)"
    using assms by (simp_all add: well_formed_def)
  show ?thesis
    unfolding well_formed_def filtered_df_def Let_def
    using length_select_rows [OF l(1), of ?k] length_select_rows [OF l(2), of ?k]
      length_select_rows [OF l(3), of ?k] length_select_rows [OF l(4), of ?k]
    by simp
qed

text \<open>
  Claim C3. For every (well-formed) results table and every triple of thresholds, the rows
  of the filtered table are exactly the rows of the results table, in their order, that
  satisfy \<open>FDR \<le> fdr_cutoff\<close> and \<open>BaseMean \<ge> base_mean_cutoff\<close> and
  \<open>|Log2FoldChange| \<ge> log2fc_cutoff\<close>; the filtered table is a function of the table and
  the thresholds alone, and the second tab leaves the stored results table as it was.
\<close>

theorem filtered_df_keeps_exactly:
  assumes "well_formed t"
  shows "table_rows (filtered_df a b c t) = filter (keeps a b c) (table_rows t) \<and>
         well_formed (filtered_df a b c t) \<and>
         (\<forall>u s' view msgs. tab2 u (Some (Some t)) = Inr (s', view, msgs) \<longrightarrow>
            s' = Some (Some t) \<and>
            view = Some (filtered_df (fdr_cutoff u) (base_mean_cutoff u) (log2fc_cutoff u) t))"
proof -
  have "table_rows (filtered_df a b c t) = filter (keeps a b c) (table_rows t)"
    using table_rows_filtered [OF assms] filter_mask_rows [OF assms]
    by (simp add: select_rows_map)
  moreover have "\<forall>u s' view msgs. tab2 u (Some (Some t)) = Inr (s', view, msgs) \<longrightarrow>
            s' = Some (Some t) \<and>
            view = Some (filtered_df (fdr_cutoff u) (base_mean_cutoff u) (log2fc_cutoff u) t)"
    by (auto simp: tab2_def Let_def split: if_splits)
  ultimately show ?thesis using well_formed_filtered [OF assms] by blast
qed

theorem filtered_df_keeps_exactly_witness:
  "table_rows (filtered_df (1 / 100) 10 (1 / 2) example_results) =
     [(Text ''G1'', Fin 20, Fin (- 1), Fin (1 / 200), Fin (1 / 100))] \<and>
   tab2 example_ui (Some (Some example_results)) =
     Inr (Some (Some example_results),
          Some (filtered_df (1 / 100) 10 (1 / 2) example_results), [])"
proof -
  have wf: "well_formed example_results"
    by (simp add: well_formed_def example_results_def)
  have rows: "table_rows example_results =
      [(Text ''G1'', Fin 20, Fin (- 1), Fin (1 / 200), Fin (1 / 100)),
       (Text ''G2'', Fin 5, Fin 2, Fin (1 / 100), Fin (1 / 100))]"
    by (simp add: table_rows_def example_results_def)
  have "table_rows (filtered_df (1 / 100) 10 (1 / 2) example_results) =
        filter (keeps (1 / 100) 10 (1 / 2)) (table_rows example_results)"
    using filtered_df_keeps_exactly [OF wf] by blast
  then have a: "table_rows (filtered_df (1 / 100) 10 (1 / 2) example_results) =
     [(Text ''G1'', Fin 20, Fin (- 1), Fin (1 / 200), Fin (1 / 100))]"
    by (simp add: rows fl_ge_def)
  have b: "tab2 example_ui (Some (Some example_results)) =
     Inr (Some (Some example_results),
          Some (filtered_df (1 / 100) 10 (1 / 2) example_results), [])"
    by (simp add: tab2_def Let_def example_ui_def)
  show ?thesis using a b by simp
qed

lemma fl_abs_ge_zero: "l \<noteq> NaN \<Longrightarrow> fl_ge (fl_abs l) (Fin 0)"
  by (cases l) (simp_all add: fl_ge_def)

lemma filter_mask_all:
  assumes "well_formed t" and "k \<in> set (filter_mask a b c t)"
    and "\<forall>f\<in>set (FDR t). fl_le f (Fin a)"
    and "\<forall>m\<in>set (BaseMean t). fl_ge m (Fin (of_int b))"
    and "\<forall>l\<in>set (Log2FoldChange t). fl_ge (fl_abs l) (Fin c)"
  shows "k"
proof -
  from assms(2) obtain i where i: "i < length (filter_mask a b c t)" and k: "k = filter_mask a b c t ! i"
    by (metis in_set_conv_nth)
  from i have ig: "i < length (Gene t)" using assms(1) by (simp add: length_filter_mask)
  then have "FDR t ! i \<in> set (FDR t)" "BaseMean t ! i \<in> set (BaseMean t)"
    "Log2FoldChange t ! i \<in> set (Log2FoldChange t)"
    using assms(1) by (simp_all add: well_formed_def)
  then have "fl_le (FDR t ! i) (Fin a)" "fl_ge (BaseMean t ! i) (Fin (of_int b))"
    "fl_ge (fl_abs (Log2FoldChange t ! i)) (Fin c)"
    using assms(3-5) by blast+
  then show ?thesis using k ig assms(1) by (simp add: filter_mask_def well_formed_def)
qed

lemma filtered_df_all:
  assumes "well_formed t"
    and "\<forall>f\<in>set (FDR t). fl_le f (Fin a)"
    and "\<forall>m\<in>set (BaseMean t). fl_ge m (Fin (of_int b))"
    and "\<forall>l\<in>set (Log2FoldChange t). fl_ge (fl_abs l) (Fin c)"
  shows "filtered_df a b c t = t"
proof -
  let ?k = "filter_mask a b c t"
  have all: "\<forall>k\<in>set ?k. k" using filter_mask_all [OF assms(1) _ assms(2-4)] by blast
  have l: "length ?k = length (Gene t)" using assms(1) by (rule length_filter_mask)
  have "select_rows ?k (Gene t) = Gene t" "select_rows ?k (BaseMean t) = BaseMean t"
    "select_rows ?k (Log2FoldChange t) = Log2FoldChange t"
    "select_rows ?k (pvalue t) = pvalue t" "select_rows ?k (FDR t) = FDR t"
    using assms(1) l all by (simp_all add: select_rows_all well_formed_def)
  then show ?thesis by (simp add: filtered_df_def Let_def)
qed

text \<open>
  Claim C7, as amended. For every results table in which every FDR value is \<open>0.0\<close>, every
  BaseMean is a number that is not negative and no Log2FoldChange is missing, filtering
  with \<open>fdr_cutoff = 0.05\<close>, \<open>base_mean_cutoff = 0\<close> and \<open>log2fc_cutoff = 0\<close> returns the full
  table.
\<close>

theorem zero_fdr_default_thresholds_keep_all:
  assumes "well_formed t"
    and "\<forall>f\<in>set (FDR t). f = Fin 0"
    and "\<forall>m\<in>set (BaseMean t). fl_ge m (Fin 0)"
    and "\<forall>l\<in>set (Log2FoldChange t). l \<noteq> NaN"
  shows "filtered_df (5 / 100) 0 0 t = t"
proof (rule filtered_df_all [OF assms(1)])
  show "\<forall>f\<in>set (FDR t). fl_le f (Fin (5 / 100))" using assms(2) by auto
  show "\<forall>m\<in>set (BaseMean t). fl_ge m (Fin (of_int 0))" using assms(3) by simp
  show "\<forall>l\<in>set (Log2FoldChange t). fl_ge (fl_abs l) (Fin 0)"
    using assms(4) fl_abs_ge_zero by blast
qed

theorem zero_fdr_default_thresholds_keep_all_witness:
  "filtered_df (5 / 100) 0 0 zero_fdr_results = zero_fdr_results"
proof -
  have wf: "well_formed zero_fdr_results" by (simp add: well_formed_def zero_fdr_results_def)
  have f: "\<forall>f\<in>set (FDR zero_fdr_results). f = Fin 0" by (simp add: zero_fdr_results_def)
  have m: "\<forall>m\<in>set (BaseMean zero_fdr_results). fl_ge m (Fin 0)"
    by (simp add: zero_fdr_results_def fl_ge_def)
  have l: "\<forall>l\<in>set (Log2FoldChange zero_fdr_results). l \<noteq> NaN"
    by (simp add: zero_fdr_results_def)
  show ?thesis using zero_fdr_default_thresholds_keep_all [OF wf f m l] .
qed

lemma lower_labels: "lower ''treated'' = ''treated''" "lower ''untreated'' = ''untreated''"
  by code_simp+

text \<open>
  Claim C7, as stated, fails: a gene whose only treated cell is not a number has a missing
  treated mean, so its BaseMean and Log2FoldChange are \<open>NaN\<close>; with a drawn p-value of
  \<open>0.0\<close> its FDR is \<open>0.0\<close>, and the filter with the thresholds \<open>0.05, 0, 0\<close> drops the row,
  since every comparison with \<open>NaN\<close> is false.
\<close>

theorem zero_fdr_full_table_counterexample:
  "de_try (\<lambda>i. 0) missing_treated_frame ''Gene'' [''T1'', ''U1'']
     [(''T1'', ''treated''), (''U1'', ''untreated'')] = Inr (Computed missing_treated_results) \<and>
   FDR missing_treated_results = [Fin 0] \<and>
   table_rows missing_treated_results = [(Text ''G1'', NaN, NaN, Fin 0, Fin 0)] \<and>
   table_rows (filtered_df (5 / 100) 0 0 missing_treated_results) = []"
proof -
  have mt: "multipletests [0] = Inr [0]" by code_simp
  have a: "de_try (\<lambda>i. 0) missing_treated_frame ''Gene'' [''T1'', ''U1'']
     [(''T1'', ''treated''), (''U1'', ''untreated'')] = Inr (Computed missing_treated_results)"
    by (simp add: de_try_def Let_def to_numeric_cols_def missing_columns_def missing_treated_frame_def
        coerce_row_def cell_at_def to_numeric_def samples_labelled_def lower_labels
        mean_axis1_def select_cells_def is_text_def nanmean_def log2_fold_change_def
        base_mean_def fl_sub_def uniform_def mt get_column_def missing_treated_results_def
        upt_rec)
  have b: "table_rows missing_treated_results = [(Text ''G1'', NaN, NaN, Fin 0, Fin 0)]"
    by (simp add: table_rows_def missing_treated_results_def)
  have c: "table_rows (filtered_df (5 / 100) 0 0 missing_treated_results) = []"
    by (simp add: table_rows_def filtered_df_def filter_mask_def missing_treated_results_def
        fl_ge_def)
  show ?thesis using a b c by (simp add: missing_treated_results_def)
qed






text \<open>
  Claim C4. If the body of the \<open>try\<close> block raises, whether in the numeric coercion or
  later in the computation, the exception is caught, the one message shown carries it, and
  the stored results table is the one from before; the slot changes only when the whole
  computation has produced a results table, which is then stored.
\<close>

theorem exception_keeps_stored_results:
  "(de_try draw df (gene_id_col u) (sample_cols u)
      (build_condition_mapping (condition_text u) (sample_cols u) []) = Inl e \<longrightarrow>
      run_de draw df u s = (s, [Error_occurred e])) \<and>
   (fst (run_de draw df u s) = s \<or>
    (\<exists>res. de_try draw df (gene_id_col u) (sample_cols u)
       (build_condition_mapping (condition_text u) (sample_cols u) []) = Inr (Computed res) \<and>
       run_de draw df u s = (Some (Some res), [Success_completed (length (Gene res))])))"
  by (auto simp: run_de_def Let_def split: sum.splits outcome.splits)

lemma example_mapping:
  "build_condition_mapping (condition_text example_ui) (sample_cols example_ui) [] =
     [(''T1'', ''Treated''), (''U1'', ''untreated'')]"
  by (simp add: example_ui_def)

lemma lower_Treated: "lower ''Treated'' = ''treated''"
  by code_simp

theorem exception_keeps_stored_results_witness:
  "de_try (\<lambda>i. 0) header_only_frame (gene_id_col example_ui) (sample_cols example_ui)
      (build_condition_mapping (condition_text example_ui) (sample_cols example_ui) []) =
     Inl ZeroDivisionError \<and>
   run_de (\<lambda>i. 0) header_only_frame example_ui (Some (Some example_results)) =
     (Some (Some example_results), [Error_occurred ZeroDivisionError])"
proof -
  have mt: "multipletests [] = Inl ZeroDivisionError" by code_simp
  have a: "de_try (\<lambda>i. 0) header_only_frame (gene_id_col example_ui) (sample_cols example_ui)
      (build_condition_mapping (condition_text example_ui) (sample_cols example_ui) []) =
     Inl ZeroDivisionError"
    unfolding example_mapping
    by (simp add: de_try_def Let_def to_numeric_cols_def missing_columns_def
        header_only_frame_def example_ui_def samples_labelled_def lower_labels lower_Treated
        mean_axis1_def uniform_def mt)
  show ?thesis
    using exception_keeps_stored_results [of "\<lambda>i. 0" header_only_frame example_ui
        ZeroDivisionError "Some (Some example_results)"] a
    by simp
qed






section \<open>Properties of the pipeline\<close>

lemma de_try_Computed:
  assumes "de_try draw df0 g sc cm = Inr (Computed res)"
  obtains df untreated_expr treated_expr fdr gene where
    "to_numeric_cols df0 sc = Inr df"
    "mean_axis1 df (samples_labelled ''untreated'' cm) = Inr untreated_expr"
    "mean_axis1 df (samples_labelled ''treated'' cm) = Inr treated_expr"
    "multipletests (uniform draw (length (map2 log2_fold_change treated_expr untreated_expr))) = Inr fdr"
    "get_column df g = Inr gene"
    "res = \<lparr>Gene = gene, BaseMean = map2 base_mean treated_expr untreated_expr,
            Log2FoldChange = map2 log2_fold_change treated_expr untreated_expr,
            pvalue = map Fin (uniform draw (length (map2 log2_fold_change treated_expr untreated_expr))),
            FDR = map Fin fdr\<rparr>"
  using assms
  by (auto simp: de_try_def Let_def split: sum.splits if_splits)

lemma multipletests_Inr_nonempty: "multipletests ps = Inr out \<Longrightarrow> ps \<noteq> []"
  by (auto simp: multipletests_def multipletests_with_def Let_def take_np_def argsort_def
      split: if_splits)

lemma multipletests_bounds:
  assumes "multipletests ps = Inr out" and "\<forall>p\<in>set ps. 0 \<le> p \<and> p < b"
  shows "\<forall>x\<in>set out. 0 \<le> x \<and> x < b"
proof -
  have ne: "ps \<noteq> []" using assms(1) by (rule multipletests_Inr_nonempty)
  from set_multipletests [OF ne] assms(1)
  have s: "set out = set (clip_above (run_min_down (bh_raw ps)))" by auto
  have nonneg: "\<forall>x\<in>set (run_min_down (bh_raw ps)). 0 \<le> x"
    by (rule run_min_down_lower [OF bh_raw_nonneg]) (use assms(2) in auto)
  have lo: "\<forall>y\<in>set (clip_above (run_min_down (bh_raw ps))). 0 \<le> y"
    using clip_above_range [OF nonneg] by blast
  have hi: "\<forall>y\<in>set (clip_above (run_min_down (bh_raw ps))). y < b"
    by (rule corrected_below [OF ne]) (use assms(2) in auto)
  show ?thesis using s lo hi by auto
qed

lemma uniform_in_range:
  "in_range draw \<Longrightarrow> \<forall>p\<in>set (uniform draw n). 0 \<le> p \<and> p < 5 / 100"
  by (auto simp: in_range_def uniform_def)

text \<open>
  Claim C9. When every drawn p-value lies in \<open>[0, 0.05)\<close>, every FDR value of a results
  table the pipeline produces is a number below \<open>0.05\<close> (and not negative), so the
  comparison \<open>FDR \<le> 0.05\<close> of the filter is true in every row: with \<open>fdr_cutoff = 0.05\<close>
  the FDR condition excludes no gene.
\<close>

theorem stored_fdr_below_cutoff:
  assumes "in_range draw" and "de_try draw df0 g sc cm = Inr (Computed res)"
  shows "(\<forall>f\<in>set (FDR res). \<exists>x. f = Fin x \<and> 0 \<le> x \<and> x < 5 / 100) \<and>
         map (\<lambda>f. fl_le f (Fin (5 / 100))) (FDR res) = replicate (length (FDR res)) True"
proof -
  from assms(2) obtain ps fdr where mt: "multipletests (uniform draw ps) = Inr fdr"
    and res: "FDR res = map Fin fdr"
    by (elim de_try_Computed) simp
  have b: "\<forall>x\<in>set fdr. 0 \<le> x \<and> x < 5 / 100"
    using multipletests_bounds [OF mt uniform_in_range [OF assms(1)]] .
  then have 1: "\<forall>f\<in>set (FDR res). \<exists>x. f = Fin x \<and> 0 \<le> x \<and> x < 5 / 100"
    using res by auto
  have "map (\<lambda>f. fl_le f (Fin (5 / 100))) (map Fin fdr) = replicate (length fdr) True"
    using b by (induction fdr) auto
  then show ?thesis using 1 res by simp
qed

lemma two_gene_run:
  "de_try (\<lambda>i. 1 / 100) two_gene_frame ''Gene'' [''T1'', ''T2'', ''U1'', ''U2'']
     two_gene_mapping = Inr (Computed two_gene_results)"
proof -
  have mt: "multipletests [1 / 100, 1 / 100] = Inr [1 / 100, 1 / 100]" by code_simp
  show ?thesis
    by (simp add: de_try_def Let_def to_numeric_cols_def missing_columns_def two_gene_frame_def
        two_gene_mapping_def coerce_row_def cell_at_def to_numeric_def samples_labelled_def
        lower_labels mean_axis1_def select_cells_def is_text_def nanmean_def
        log2_fold_change_def base_mean_def fl_sub_def uniform_def mt get_column_def
        two_gene_results_def upt_rec)
qed

theorem stored_fdr_below_cutoff_witness:
  "in_range (\<lambda>i. 1 / 100) \<and>
   map (\<lambda>f. fl_le f (Fin (5 / 100))) (FDR two_gene_results) = [True, True]"
proof -
  have r: "in_range (\<lambda>i. 1 / 100)" by (simp add: in_range_def)
  show ?thesis using stored_fdr_below_cutoff [OF r two_gene_run] r
    by (simp add: two_gene_results_def)
qed

lemma to_numeric_cols_Inr:
  assumes "to_numeric_cols df0 sc = Inr df"
  shows "columns df = columns df0" "rows df = map (coerce_row (columns df0) sc) (rows df0)"
  using assms by (auto simp: to_numeric_cols_def split: list.splits)

lemma mean_axis1_Inr:
  assumes "mean_axis1 df cols = Inr ms"
  shows "ms = map (\<lambda>row. nanmean (map to_numeric (select_cells df cols row))) (rows df)"
    and "set cols \<subseteq> set (columns df)"
  using assms
  by (auto simp: mean_axis1_def missing_columns_def filter_empty_conv split: list.splits if_splits)

lemma col_pos_Some:
  "c \<in> set names \<Longrightarrow> \<exists>j. col_pos names c = Some j \<and> j < length names \<and> names ! j = c"
  by (induction names) auto

lemma to_numeric_coerced:
  assumes "j < length names"
  shows "to_numeric (cell_at (coerce_row names sc row) j) = to_numeric (cell_at row j)"
  using assms by (simp add: coerce_row_def cell_at_def to_numeric_def)

lemma select_cells_coerced:
  assumes "set cols \<subseteq> set (columns df0)" and "columns df = columns df0"
  shows "map to_numeric (select_cells df cols (coerce_row (columns df0) sc row)) =
         map to_numeric (select_cells df0 cols row)"
proof -
  have "\<And>c. c \<in> set cols \<Longrightarrow>
      to_numeric (cell_at (coerce_row (columns df0) sc row) (the (col_pos (columns df0) c))) =
      to_numeric (cell_at row (the (col_pos (columns df0) c)))"
  proof -
    fix c assume "c \<in> set cols"
    with assms(1) obtain j where "col_pos (columns df0) c = Some j" "j < length (columns df0)"
      using col_pos_Some by blast
    then show "to_numeric (cell_at (coerce_row (columns df0) sc row) (the (col_pos (columns df0) c))) =
      to_numeric (cell_at row (the (col_pos (columns df0) c)))"
      by (simp add: to_numeric_coerced)
  qed
  then show ?thesis by (simp add: select_cells_def assms(2))
qed

lemma foldr_fl_add_available:
  assumes "PInf \<notin> set vals" "MInf \<notin> set vals"
  shows "foldr fl_add (filter (\<lambda>v. v \<noteq> NaN) vals) (Fin 0) = Fin (sum_list (available vals))"
  using assms
proof (induction vals)
  case Nil
  show ?case by simp
next
  case (Cons v vs)
  then show ?case by (cases v) auto
qed

lemma length_available:
  assumes "PInf \<notin> set vals" "MInf \<notin> set vals"
  shows "length (filter (\<lambda>v. v \<noteq> NaN) vals) = length (available vals)"
  using assms
proof (induction vals)
  case Nil
  show ?case by simp
next
  case (Cons v vs)
  then show ?case by (cases v) auto
qed

lemma nanmean_arithmetic_mean:
  assumes "PInf \<notin> set vals" "MInf \<notin> set vals" "available vals \<noteq> []"
  shows "nanmean vals = Fin (arithmetic_mean (available vals))"
proof -
  have "filter (\<lambda>v. v \<noteq> NaN) vals \<noteq> []"
    using length_available [OF assms(1,2)] assms(3) by (metis length_0_conv)
  then show ?thesis
    using foldr_fl_add_available [OF assms(1,2)] length_available [OF assms(1,2)]
    by (simp add: nanmean_def Let_def arithmetic_mean_def)
qed

lemma log2_fold_change_Fin:
  "- 1 < t \<Longrightarrow> - 1 < u \<Longrightarrow>
   log2_fold_change (Fin t) (Fin u) = Fin (log 2 (t + 1) - log 2 (u + 1))"
  by (simp add: log2_fold_change_def fl_sub_def)

text \<open>
  Claim C2. In a results table the pipeline produces there is one entry per gene row, and
  for every gene row, with the treated and the untreated mean taken over the values of the
  respective sample columns that are not missing, \<open>Log2FoldChange\<close> is
  \<open>log2(treated_mean + 1) - log2(untreated_mean + 1)\<close> and \<open>BaseMean\<close> is
  \<open>(treated_mean + untreated_mean) / 2\<close>. Where both groups have a number in the row (and
  no infinity) and both means are above \<open>-1\<close>, these are the real numbers
  \<open>log 2 (t + 1) - log 2 (u + 1)\<close> and \<open>(t + u) / 2\<close> of the arithmetic means \<open>t\<close> and \<open>u\<close> of
  the available values; for the means 10 and 5 the fold change is \<open>log 2 11 - log 2 6\<close>.
\<close>

theorem fold_change_and_base_mean_of_group_means:
  assumes "de_try draw df g sc cm = Inr (Computed res)" and "i < length (rows df)"
  shows "length (Log2FoldChange res) = length (rows df) \<and>
         length (BaseMean res) = length (rows df) \<and>
         (\<forall>tvals uvals.
            tvals = map to_numeric (select_cells df (samples_labelled ''treated'' cm) (rows df ! i)) \<and>
            uvals = map to_numeric (select_cells df (samples_labelled ''untreated'' cm) (rows df ! i))
            \<longrightarrow>
            Log2FoldChange res ! i =
              fl_sub (np_log2 (fl_add (nanmean tvals) (Fin 1))) (np_log2 (fl_add (nanmean uvals) (Fin 1))) \<and>
            BaseMean res ! i = fl_div_pos (fl_add (nanmean tvals) (nanmean uvals)) 2 \<and>
            (PInf \<notin> set tvals \<and> MInf \<notin> set tvals \<and> available tvals \<noteq> [] \<and>
             PInf \<notin> set uvals \<and> MInf \<notin> set uvals \<and> available uvals \<noteq> [] \<and>
             - 1 < arithmetic_mean (available tvals) \<and> - 1 < arithmetic_mean (available uvals)
             \<longrightarrow>
             Log2FoldChange res ! i =
               Fin (log 2 (arithmetic_mean (available tvals) + 1) -
                    log 2 (arithmetic_mean (available uvals) + 1)) \<and>
             BaseMean res ! i =
               Fin ((arithmetic_mean (available tvals) + arithmetic_mean (available uvals)) / 2)))"
proof -
  let ?T = "samples_labelled ''treated'' cm"
  let ?U = "samples_labelled ''untreated'' cm"
  let ?tv = "\<lambda>row. map to_numeric (select_cells df ?T row)"
  let ?uv = "\<lambda>row. map to_numeric (select_cells df ?U row)"
  from assms(1) obtain df1 ue te where
    co: "to_numeric_cols df sc = Inr df1" and
    um: "mean_axis1 df1 ?U = Inr ue" and
    tm: "mean_axis1 df1 ?T = Inr te" and
    bm: "BaseMean res = map2 base_mean te ue" and
    lf: "Log2FoldChange res = map2 log2_fold_change te ue"
    by (elim de_try_Computed) simp
  note c = to_numeric_cols_Inr [OF co]
  have subT: "set ?T \<subseteq> set (columns df)" using mean_axis1_Inr(2) [OF tm] c(1) by simp
  have subU: "set ?U \<subseteq> set (columns df)" using mean_axis1_Inr(2) [OF um] c(1) by simp
  have te: "te = map (\<lambda>row. nanmean (?tv row)) (rows df)"
    unfolding mean_axis1_Inr(1) [OF tm] c(2) map_map comp_def
    using select_cells_coerced [OF subT c(1)] by simp
  have ue: "ue = map (\<lambda>row. nanmean (?uv row)) (rows df)"
    unfolding mean_axis1_Inr(1) [OF um] c(2) map_map comp_def
    using select_cells_coerced [OF subU c(1)] by simp
  have len: "length (Log2FoldChange res) = length (rows df)" "length (BaseMean res) = length (rows df)"
    by (simp_all add: lf bm te ue)
  have L: "Log2FoldChange res ! i = log2_fold_change (nanmean (?tv (rows df ! i))) (nanmean (?uv (rows df ! i)))"
    using assms(2) by (simp add: lf te ue)
  have B: "BaseMean res ! i = base_mean (nanmean (?tv (rows df ! i))) (nanmean (?uv (rows df ! i)))"
    using assms(2) by (simp add: bm te ue)
  have fin: "PInf \<notin> set tvals \<Longrightarrow> MInf \<notin> set tvals \<Longrightarrow> available tvals \<noteq> [] \<Longrightarrow>
        PInf \<notin> set uvals \<Longrightarrow> MInf \<notin> set uvals \<Longrightarrow> available uvals \<noteq> [] \<Longrightarrow>
        - 1 < arithmetic_mean (available tvals) \<Longrightarrow> - 1 < arithmetic_mean (available uvals) \<Longrightarrow>
        log2_fold_change (nanmean tvals) (nanmean uvals) =
           Fin (log 2 (arithmetic_mean (available tvals) + 1) -
                log 2 (arithmetic_mean (available uvals) + 1)) \<and>
        base_mean (nanmean tvals) (nanmean uvals) =
           Fin ((arithmetic_mean (available tvals) + arithmetic_mean (available uvals)) / 2)"
    for tvals uvals
    by (simp add: nanmean_arithmetic_mean log2_fold_change_Fin base_mean_def)
  show ?thesis
    using len L B fin
    by (auto simp: log2_fold_change_def base_mean_def)
qed

theorem fold_change_and_base_mean_of_group_means_witness:
  "Log2FoldChange two_gene_results ! 0 = Fin (log 2 11 - log 2 6) \<and>
   BaseMean two_gene_results ! 0 = Fin (15 / 2) \<and>
   arithmetic_mean (available [Fin 10, Fin 10]) = 10 \<and>
   arithmetic_mean (available [Fin 4, Fin 6]) = 5 \<and>
   Log2FoldChange two_gene_results ! 1 = Fin (log 2 21 - log 2 9) \<and>
   arithmetic_mean (available [Fin 20, NaN]) = 20"
proof -
  have i: "0 < length (rows two_gene_frame)" "1 < length (rows two_gene_frame)"
    by (simp_all add: two_gene_frame_def)
  have T: "samples_labelled ''treated'' two_gene_mapping = [''T1'', ''T2'']"
    and U: "samples_labelled ''untreated'' two_gene_mapping = [''U1'', ''U2'']"
    by (simp_all add: samples_labelled_def two_gene_mapping_def lower_labels)
  have v0: "map to_numeric (select_cells two_gene_frame [''T1'', ''T2''] (rows two_gene_frame ! 0)) =
        [Fin 10, Fin 10]"
    "map to_numeric (select_cells two_gene_frame [''U1'', ''U2''] (rows two_gene_frame ! 0)) =
        [Fin 4, Fin 6]"
    by (simp_all add: select_cells_def two_gene_frame_def cell_at_def to_numeric_def)
  have v1: "map to_numeric (select_cells two_gene_frame [''T1'', ''T2''] (rows two_gene_frame ! 1)) =
        [Fin 20, NaN]"
    "map to_numeric (select_cells two_gene_frame [''U1'', ''U2''] (rows two_gene_frame ! 1)) =
        [Fin 8, Fin 8]"
    by (simp_all add: select_cells_def two_gene_frame_def cell_at_def to_numeric_def)
  have m: "arithmetic_mean (available [Fin 10, Fin 10]) = 10"
    "arithmetic_mean (available [Fin 4, Fin 6]) = 5"
    "arithmetic_mean (available [Fin 20, NaN]) = 20"
    "arithmetic_mean (available [Fin 8, Fin 8]) = 8"
    by (simp_all add: arithmetic_mean_def)
  from fold_change_and_base_mean_of_group_means [OF two_gene_run i(1)]
  have a: "Log2FoldChange two_gene_results ! 0 = Fin (log 2 11 - log 2 6) \<and>
      BaseMean two_gene_results ! 0 = Fin (15 / 2)"
    unfolding T U v0 using m by auto
  from fold_change_and_base_mean_of_group_means [OF two_gene_run i(2)]
  have b: "Log2FoldChange two_gene_results ! 1 = Fin (log 2 21 - log 2 9)"
    unfolding T U v1 using m by auto
  show ?thesis using a b m by simp
qed

end
